theory Spec2Isabelle
  imports Complex_Main "HOL-Library.Sublist"
begin

section \<open>Python values as the program sees them\<close>

text \<open>
  \<^verbatim>\<open>Deep_research.py\<close> works on the values that \<^verbatim>\<open>requests\<close> decodes from JSON and
  never checks their shape, so every operation below dispatches on the dynamic type and
  raises where Python raises. A Python \<^verbatim>\<open>str\<close> is a sequence of Unicode code points;
  slicing and \<^verbatim>\<open>replace\<close> count code points, so a string is a list of code points.
  A \<^verbatim>\<open>dict\<close> keeps insertion order, so it is an association list (keys distinct in
  every decoded value; lookup takes the first entry).
\<close>

type_synonym pystr = "nat list"

definition ascii :: "string \<Rightarrow> pystr" where
  "ascii s = map of_char s"

datatype pyval =
    PNone
  | PBool bool
  | PNum rat
  | PStr pystr
  | PList "pyval list"
  | PDict "(pystr \<times> pyval) list"

datatype py_exn =
    TypeError
  | AttributeError
  | KeyError
  | IndexError
  | RuntimeError pystr
  | LibraryError pystr

text \<open>\<^verbatim>\<open>key in v\<close> for a string key.\<close>

fun py_contains :: "pystr \<Rightarrow> pyval \<Rightarrow> py_exn + bool" where
  "py_contains k (PDict kvs) = Inr (k \<in> fst ` set kvs)"
| "py_contains k (PList xs) = Inr (PStr k \<in> set xs)"
| "py_contains k (PStr s) = Inr (sublist k s)"
| "py_contains k PNone = Inl TypeError"
| "py_contains k (PBool b) = Inl TypeError"
| "py_contains k (PNum n) = Inl TypeError"

text \<open>\<^verbatim>\<open>v[key]\<close> for a string key.\<close>

fun py_getitem :: "pyval \<Rightarrow> pystr \<Rightarrow> py_exn + pyval" where
  "py_getitem (PDict kvs) k = (case map_of kvs k of None \<Rightarrow> Inl KeyError | Some v \<Rightarrow> Inr v)"
| "py_getitem v k = Inl TypeError"

text \<open>\<^verbatim>\<open>v[0]\<close>.\<close>

fun py_getitem0 :: "pyval \<Rightarrow> py_exn + pyval" where
  "py_getitem0 (PList xs) = (case xs of [] \<Rightarrow> Inl IndexError | x # _ \<Rightarrow> Inr x)"
| "py_getitem0 (PStr s) = (case s of [] \<Rightarrow> Inl IndexError | c # _ \<Rightarrow> Inr (PStr [c]))"
| "py_getitem0 (PDict kvs) = Inl KeyError"
| "py_getitem0 v = Inl TypeError"

text \<open>\<^verbatim>\<open>v.get(key, default)\<close>: only a dict has the method.\<close>

fun py_get :: "pyval \<Rightarrow> pystr \<Rightarrow> pyval \<Rightarrow> py_exn + pyval" where
  "py_get (PDict kvs) k d = Inr (case map_of kvs k of None \<Rightarrow> d | Some v \<Rightarrow> v)"
| "py_get v k d = Inl AttributeError"

text \<open>\<^verbatim>\<open>v.items()\<close>.\<close>

fun py_items :: "pyval \<Rightarrow> py_exn + (pystr \<times> pyval) list" where
  "py_items (PDict kvs) = Inr kvs"
| "py_items v = Inl AttributeError"

text \<open>Truth value, as \<^verbatim>\<open>not v\<close> tests it.\<close>

fun py_truthy :: "pyval \<Rightarrow> bool" where
  "py_truthy PNone = False"
| "py_truthy (PBool b) = b"
| "py_truthy (PNum n) = (n \<noteq> 0)"
| "py_truthy (PStr s) = (s \<noteq> [])"
| "py_truthy (PList xs) = (xs \<noteq> [])"
| "py_truthy (PDict kvs) = (kvs \<noteq> [])"

text \<open>\<^verbatim>\<open>xs[:n]\<close> on a sequence: a negative bound counts from the end.\<close>

definition slice_to :: "int \<Rightarrow> 'a list \<Rightarrow> 'a list" where
  "slice_to n xs = (if 0 \<le> n then take (nat n) xs else take (nat (int (length xs) + n)) xs)"

fun py_slice_to :: "pyval \<Rightarrow> int \<Rightarrow> py_exn + pyval" where
  "py_slice_to (PStr s) n = Inr (PStr (slice_to n s))"
| "py_slice_to (PList xs) n = Inr (PList (slice_to n xs))"
| "py_slice_to v n = Inl TypeError"

text \<open>The elements a \<^verbatim>\<open>for\<close> loop visits; reached only for what a slice returns.\<close>

fun py_iter :: "pyval \<Rightarrow> py_exn + pyval list" where
  "py_iter (PList xs) = Inr xs"
| "py_iter (PStr s) = Inr (map (\<lambda>c. PStr [c]) s)"
| "py_iter (PDict kvs) = Inr (map (\<lambda>kv. PStr (fst kv)) kvs)"
| "py_iter v = Inl TypeError"

text \<open>\<^verbatim>\<open>len(v)\<close>.\<close>

fun py_len :: "pyval \<Rightarrow> py_exn + nat" where
  "py_len (PStr s) = Inr (length s)"
| "py_len (PList xs) = Inr (length xs)"
| "py_len (PDict kvs) = Inr (length kvs)"
| "py_len v = Inl TypeError"

text \<open>\<^verbatim>\<open>s.replace(' ', '_')\<close> on a string of code points.\<close>

fun replace_space :: "pystr \<Rightarrow> pystr" where
  "replace_space [] = []"
| "replace_space (c # cs) = (if c = 32 then 95 else c) # replace_space cs"

fun py_replace_space :: "pyval \<Rightarrow> py_exn + pystr" where
  "py_replace_space (PStr s) = Inr (replace_space s)"
| "py_replace_space v = Inl AttributeError"

text \<open>Decimal rendering of the positive counter in an f-string.\<close>

fun str_nat :: "nat \<Rightarrow> pystr" where
  "str_nat n = (if n < 10 then [48 + n] else str_nat (n div 10) @ [48 + n mod 10])"

declare str_nat.simps [simp del]

section \<open>The research pipeline\<close>

text \<open>
  What \<^verbatim>\<open>deep_research\<close> reads from outside: the wall clock, the search request and the
  content requests. \<^verbatim>\<open>time.time()\<close> returns a double; the n-th reading is the rational
  number that double denotes. The deadline test subtracts two doubles, which rounds, so the
  subtraction of doubles is taken as given (\<open>float_sub\<close>); the comparison of the
  difference with the integer \<^verbatim>\<open>time_limit\<close> is exact. A request yields the decoded body,
  or the exception that \<^verbatim>\<open>requests.get\<close> or \<^verbatim>\<open>.json()\<close> raised. The content request is
  given its position among the content requests of the run and the title it asks for.
  Python's own rendering of a value that is not a string and of an interpreter exception
  are the built-in \<^verbatim>\<open>str\<close>, which is not code of this program, so they are taken as
  given. The progress notices of the user interface (\<^verbatim>\<open>st.write\<close>, \<^verbatim>\<open>st.spinner\<close>) have
  no part in the result and are left out.
\<close>

record py_runtime =
  str_of_value :: "pyval \<Rightarrow> pystr"
  str_of_exn :: "py_exn \<Rightarrow> pystr"

record wiki_env = py_runtime +
  clock :: "nat \<Rightarrow> rat"
  float_sub :: "rat \<Rightarrow> rat \<Rightarrow> rat"
  search_get :: "pystr \<Rightarrow> int \<Rightarrow> py_exn + pyval"
  content_get :: "nat \<Rightarrow> pyval \<Rightarrow> py_exn + pyval"

text \<open>\<^verbatim>\<open>f"{v}"\<close> and \<^verbatim>\<open>str(e)\<close>.\<close>

definition format_value :: "(pyval \<Rightarrow> pystr) \<Rightarrow> pyval \<Rightarrow> pystr" where
  "format_value str_v v = (case v of PStr s \<Rightarrow> s | _ \<Rightarrow> str_v v)"

definition exn_message :: "(py_exn \<Rightarrow> pystr) \<Rightarrow> py_exn \<Rightarrow> pystr" where
  "exn_message str_e e =
     (case e of RuntimeError m \<Rightarrow> m | LibraryError m \<Rightarrow> m | _ \<Rightarrow> str_e e)"

text \<open>An entry of \<^verbatim>\<open>results["sources"]\<close>, the \<^verbatim>\<open>results\<close> dict and the returned dict.\<close>

record source =
  title :: pyval
  url :: pystr
  snippet :: pyval

record research_data =
  query :: pystr
  sources :: "source list"
  summary :: pystr

datatype outcome = Success research_data | Failure pystr

text \<open>\<^verbatim>\<open>"k1" in d and "k2" in d["k1"]\<close>, and \<^verbatim>\<open>d["k1"]["k2"]\<close>.\<close>

definition has_nested :: "pystr \<Rightarrow> pystr \<Rightarrow> pyval \<Rightarrow> py_exn + bool" where
  "has_nested k1 k2 d =
     (case py_contains k1 d of
        Inl e \<Rightarrow> Inl e
      | Inr b \<Rightarrow>
          if \<not> b then Inr False
          else (case py_getitem d k1 of Inl e \<Rightarrow> Inl e | Inr q \<Rightarrow> py_contains k2 q))"

definition get_nested :: "pystr \<Rightarrow> pystr \<Rightarrow> pyval \<Rightarrow> py_exn + pyval" where
  "get_nested k1 k2 d =
     (case py_getitem d k1 of Inl e \<Rightarrow> Inl e | Inr q \<Rightarrow> py_getitem q k2)"

text \<open>
  The loop over \<^verbatim>\<open>content_data["query"]["pages"].items()\<close>: the first page with an
  \<^verbatim>\<open>"extract"\<close> key gives the source and ends the loop (\<^verbatim>\<open>break\<close>).
\<close>

fun pages_loop :: "pyval \<Rightarrow> (pystr \<times> pyval) list \<Rightarrow> py_exn + source option" where
  "pages_loop title_v [] = Inr None"
| "pages_loop title_v ((page_id, page) # rest) =
     (case py_contains (ascii ''extract'') page of
        Inl e \<Rightarrow> Inl e
      | Inr b \<Rightarrow>
          if \<not> b then pages_loop title_v rest
          else (case py_getitem page (ascii ''extract'') of
                  Inl e \<Rightarrow> Inl e
                | Inr ex \<Rightarrow>
                   (case py_slice_to ex 1200 of
                      Inl e \<Rightarrow> Inl e
                    | Inr text \<Rightarrow>
                       (case py_replace_space title_v of
                          Inl e \<Rightarrow> Inl e
                        | Inr t \<Rightarrow>
                            Inr (Some \<lparr>title = title_v,
                                       url = ascii ''https://en.wikipedia.org/wiki/'' @ t,
                                       snippet = text\<rparr>)))))"

text \<open>The body of the inner \<^verbatim>\<open>try\<close>: the content request and the scan of its pages.\<close>

definition fetch_content :: "wiki_env \<Rightarrow> nat \<Rightarrow> pyval \<Rightarrow> py_exn + source option" where
  "fetch_content env i title_v =
     (case content_get env i title_v of
        Inl e \<Rightarrow> Inl e
      | Inr content_data \<Rightarrow>
         (case has_nested (ascii ''query'') (ascii ''pages'') content_data of
            Inl e \<Rightarrow> Inl e
          | Inr b \<Rightarrow>
              if \<not> b then Inr None
              else (case get_nested (ascii ''query'') (ascii ''pages'') content_data of
                      Inl e \<Rightarrow> Inl e
                    | Inr pages \<Rightarrow>
                       (case py_items pages of
                          Inl e \<Rightarrow> Inl e
                        | Inr kvs \<Rightarrow> pages_loop title_v kvs))))"

text \<open>The block appended to \<^verbatim>\<open>content_summary\<close> for an accepted source.\<close>

definition format_block :: "(pyval \<Rightarrow> pystr) \<Rightarrow> nat \<Rightarrow> source \<Rightarrow> pystr" where
  "format_block str_v counter src =
     str_nat counter @ ascii ''. **'' @ format_value str_v (title src) @ ascii ''**'' @ [10, 10]
     @ format_value str_v (snippet src) @ [10, 10]
     @ [128279] @ ascii '' Source: '' @ url src @ [10, 10]
     @ replicate 80 9472 @ [10, 10]"

text \<open>
  The state of the loop over the candidates: \<^verbatim>\<open>results["sources"]\<close>,
  \<^verbatim>\<open>content_summary\<close>, \<^verbatim>\<open>counter\<close>, and what the run has asked of the outside so far
  (the titles of the content requests, the number of clock readings).
\<close>

record loop_state =
  results_sources :: "source list"
  content_summary :: "pystr list"
  counter :: nat
  content_requests :: "pyval list"
  clock_reads :: nat

definition accept :: "(pyval \<Rightarrow> pystr) \<Rightarrow> source \<Rightarrow> loop_state \<Rightarrow> loop_state" where
  "accept str_v src st =
     st\<lparr>results_sources := results_sources st @ [src],
        content_summary := content_summary st @ [format_block str_v (counter st) src],
        counter := counter st + 1\<rparr>"

text \<open>
  \<^verbatim>\<open>for result in search_results[:max_urls]\<close>. The deadline is tested first; an exception
  of the content request or of the page scan skips the candidate (\<^verbatim>\<open>continue\<close>), one of
  \<^verbatim>\<open>result.get\<close> leaves the loop for the outer handler.
\<close>

fun research_loop ::
  "wiki_env \<Rightarrow> rat \<Rightarrow> int \<Rightarrow> loop_state \<Rightarrow> pyval list \<Rightarrow> py_exn option \<times> loop_state" where
  "research_loop env start_time time_limit st [] = (None, st)"
| "research_loop env start_time time_limit st (result # rest) =
     (let now = clock env (clock_reads st);
          st1 = st\<lparr>clock_reads := Suc (clock_reads st)\<rparr>
      in if float_sub env now start_time > of_int time_limit then (None, st1)
         else (case py_get result (ascii ''title'') (PStr []) of
                 Inl e \<Rightarrow> (Some e, st1)
               | Inr title_v \<Rightarrow>
                  (let st2 = st1\<lparr>content_requests := content_requests st1 @ [title_v]\<rparr>
                   in case fetch_content env (length (content_requests st1)) title_v of
                        Inl e \<Rightarrow> research_loop env start_time time_limit st2 rest
                      | Inr None \<Rightarrow> research_loop env start_time time_limit st2 rest
                      | Inr (Some src) \<Rightarrow>
                          research_loop env start_time time_limit
                            (accept (str_of_value env) src st2) rest)))"

definition research_failed :: "wiki_env \<Rightarrow> py_exn \<Rightarrow> outcome" where
  "research_failed env e =
     Failure (ascii ''Research failed: '' @ exn_message (str_of_exn env) e)"

definition init_state :: loop_state where
  "init_state = \<lparr>results_sources = [], content_summary = [], counter = 1,
                 content_requests = [], clock_reads = 1\<rparr>"

text \<open>
  \<^verbatim>\<open>deep_research(query, max_depth, time_limit, max_urls)\<close>: the returned dict, and the
  titles of the content requests the run issued, in order.
\<close>

definition deep_research ::
  "wiki_env \<Rightarrow> pystr \<Rightarrow> int \<Rightarrow> int \<Rightarrow> int \<Rightarrow> outcome \<times> pyval list" where
  "deep_research env query_text max_depth time_limit max_urls =
     (let start_time = clock env 0 in
      case search_get env query_text max_urls of
        Inl e \<Rightarrow> (research_failed env e, [])
      | Inr search_data \<Rightarrow>
         (case has_nested (ascii ''query'') (ascii ''search'') search_data of
            Inl e \<Rightarrow> (research_failed env e, [])
          | Inr b \<Rightarrow>
              if \<not> b then (Failure (ascii ''No search results found''), [])
              else (case get_nested (ascii ''query'') (ascii ''search'') search_data of
                      Inl e \<Rightarrow> (research_failed env e, [])
                    | Inr search_results \<Rightarrow>
                        if \<not> py_truthy search_results
                        then (Failure (ascii ''No results found for '' @ [39] @ query_text @ [39]), [])
                        else (case py_slice_to search_results max_urls of
                                Inl e \<Rightarrow> (research_failed env e, [])
                              | Inr sl \<Rightarrow>
                                 (case py_iter sl of
                                    Inl e \<Rightarrow> (research_failed env e, [])
                                  | Inr candidates \<Rightarrow>
                                     (case research_loop env start_time time_limit init_state candidates of
                                        (Some e, st) \<Rightarrow> (research_failed env e, content_requests st)
                                      | (None, st) \<Rightarrow>
                                          if content_summary st = []
                                          then (Failure (ascii ''Could not retrieve any content''),
                                                content_requests st)
                                          else (Success \<lparr>query = query_text,
                                                         sources = results_sources st,
                                                         summary = concat (content_summary st)\<rparr>,
                                                content_requests st)))))))"

section \<open>The summarizer and its two providers\<close>

text \<open>
  What \<^verbatim>\<open>call_llm\<close> reads from outside: the two keys of the session state, and the two
  providers. The OpenRouter request yields the decoded body, or the exception raised by
  \<^verbatim>\<open>requests.post\<close>, \<^verbatim>\<open>raise_for_status\<close> or \<^verbatim>\<open>.json()\<close>. The Groq request yields the
  client's response object, or the exception raised by the import, the client or the
  request; of the response object the program reads \<^verbatim>\<open>choices\<close>, the \<^verbatim>\<open>content\<close>
  attribute of each choice's message (absent, or a value) and \<^verbatim>\<open>str(resp)\<close>.
\<close>

type_synonym message = "pystr \<times> pystr"

record groq_response =
  choices :: "pyval option list"
  resp_str :: pystr

record llm_env = py_runtime +
  openrouter_api_key :: pystr
  groq_api_key :: pystr
  openrouter_post :: "message list \<Rightarrow> rat \<Rightarrow> py_exn + pyval"
  groq_create :: "message list \<Rightarrow> rat \<Rightarrow> py_exn + groq_response"

datatype llm_event =
    Try_OpenRouter "message list" rat
  | Warning pystr
  | Try_Groq "message list" rat

text \<open>The body of the first \<^verbatim>\<open>try\<close>: \<^verbatim>\<open>data["choices"][0]["message"]["content"]\<close>.\<close>

definition openrouter_try :: "llm_env \<Rightarrow> message list \<Rightarrow> rat \<Rightarrow> py_exn + pyval" where
  "openrouter_try env messages temperature =
     (case openrouter_post env messages temperature of
        Inl e \<Rightarrow> Inl e
      | Inr data \<Rightarrow>
         (case py_getitem data (ascii ''choices'') of
            Inl e \<Rightarrow> Inl e
          | Inr cs \<Rightarrow>
             (case py_getitem0 cs of
                Inl e \<Rightarrow> Inl e
              | Inr c \<Rightarrow>
                 (case py_getitem c (ascii ''message'') of
                    Inl e \<Rightarrow> Inl e
                  | Inr m \<Rightarrow> py_getitem m (ascii ''content'')))))"

text \<open>
  The body of the second \<^verbatim>\<open>try\<close>:
  \<^verbatim>\<open>getattr(resp.choices[0].message, "content", str(resp))\<close>.
\<close>

definition groq_try :: "llm_env \<Rightarrow> message list \<Rightarrow> rat \<Rightarrow> py_exn + pyval" where
  "groq_try env messages temperature =
     (case groq_create env messages temperature of
        Inl e \<Rightarrow> Inl e
      | Inr resp \<Rightarrow>
         (case choices resp of
            [] \<Rightarrow> Inl IndexError
          | m # _ \<Rightarrow> Inr (case m of None \<Rightarrow> PStr (resp_str resp) | Some v \<Rightarrow> v)))"

text \<open>The part of \<^verbatim>\<open>call_llm\<close> after the OpenRouter block, entered with the events so far.\<close>

definition groq_fallback ::
  "llm_env \<Rightarrow> message list \<Rightarrow> rat \<Rightarrow> llm_event list \<Rightarrow> (py_exn + pyval) \<times> llm_event list" where
  "groq_fallback env messages temperature evs =
     (if groq_api_key env \<noteq> [] then
        (case groq_try env messages temperature of
           Inr v \<Rightarrow> (Inr v, evs @ [Try_Groq messages temperature])
         | Inl e \<Rightarrow>
            (Inl (RuntimeError (ascii ''Groq call failed: '' @ exn_message (str_of_exn env) e)),
             evs @ [Try_Groq messages temperature]))
      else
        (Inl (RuntimeError
           (ascii ''No LLM provider available. Set OpenRouter or Groq key in the sidebar.'')),
         evs))"

text \<open>\<^verbatim>\<open>call_llm(messages, temperature)\<close>: the value returned or the exception raised, and
  the provider attempts and warnings in order.\<close>

definition call_llm ::
  "llm_env \<Rightarrow> message list \<Rightarrow> rat \<Rightarrow> (py_exn + pyval) \<times> llm_event list" where
  "call_llm env messages temperature =
     (if openrouter_api_key env \<noteq> [] then
        (case openrouter_try env messages temperature of
           Inr v \<Rightarrow> (Inr v, [Try_OpenRouter messages temperature])
         | Inl e \<Rightarrow>
            groq_fallback env messages temperature
              [Try_OpenRouter messages temperature,
               Warning (ascii ''OpenRouter call failed: '' @ exn_message (str_of_exn env) e)])
      else groq_fallback env messages temperature [])"

text \<open>\<^verbatim>\<open>"\n".join(lines)\<close>.\<close>

fun join_lines :: "pystr list \<Rightarrow> pystr" where
  "join_lines [] = []"
| "join_lines [l] = l"
| "join_lines (l # ls) = l @ [10] @ join_lines ls"

text \<open>
  The list comprehension of \<^verbatim>\<open>generate_summary\<close> over the first five sources:
  \<^verbatim>\<open>f"- {s['title']}: {s['snippet'][:200]}"\<close>.
\<close>

fun source_lines :: "(pyval \<Rightarrow> pystr) \<Rightarrow> source list \<Rightarrow> py_exn + pystr list" where
  "source_lines str_v [] = Inr []"
| "source_lines str_v (s # ss) =
     (case py_slice_to (snippet s) 200 of
        Inl e \<Rightarrow> Inl e
      | Inr sn \<Rightarrow>
         (case source_lines str_v ss of
            Inl e \<Rightarrow> Inl e
          | Inr ls \<Rightarrow>
              Inr ((ascii ''- '' @ format_value str_v (title s) @ ascii '': ''
                    @ format_value str_v sn) # ls)))"

definition summary_messages :: "pystr \<Rightarrow> pystr \<Rightarrow> message list" where
  "summary_messages query_text sources_text =
     [(ascii ''system'',
       ascii ''You are a research expert. Provide a concise, well-structured summary of the research findings in 2-3 paragraphs.''),
      (ascii ''user'',
       ascii ''Topic: '' @ query_text @ [10, 10] @ ascii ''Sources:'' @ [10] @ sources_text
       @ [10, 10] @ ascii ''Please summarize the key findings.'')]"

text \<open>
  \<^verbatim>\<open>generate_summary(research_data, query)\<close>: the value returned or the exception raised,
  and the provider attempts.
\<close>

definition generate_summary ::
  "llm_env \<Rightarrow> research_data \<Rightarrow> pystr \<Rightarrow> (py_exn + pyval) \<times> llm_event list" where
  "generate_summary env research query_text =
     (if \<not> (openrouter_api_key env \<noteq> [] \<or> groq_api_key env \<noteq> [])
      then (Inr (PStr (ascii ''AI summary unavailable - set API key in configuration'')), [])
      else
        (case source_lines (str_of_value env) (slice_to 5 (sources research)) of
           Inl e \<Rightarrow>
             (Inr (PStr (ascii ''Summary generation failed: '' @ exn_message (str_of_exn env) e)), [])
         | Inr ls \<Rightarrow>
            (case call_llm env (summary_messages query_text (join_lines ls)) (7 / 10) of
               (Inr v, evs) \<Rightarrow> (Inr v, evs)
             | (Inl e, evs) \<Rightarrow>
                 (Inr (PStr (ascii ''Summary generation failed: ''
                             @ exn_message (str_of_exn env) e)), evs))))"

section \<open>Auxiliary notions for the statements\<close>

text \<open>A candidate of the shape the search endpoint documents: a JSON object.\<close>

fun is_dict :: "pyval \<Rightarrow> bool" where
  "is_dict (PDict kvs) = True"
| "is_dict v = False"

text \<open>
  A content fetch fails when the body of the inner \<^verbatim>\<open>try\<close> raises or ends without a
  source: the candidate is skipped.
\<close>

definition fetch_fails :: "wiki_env \<Rightarrow> nat \<Rightarrow> pyval \<Rightarrow> bool" where
  "fetch_fails env i t = (case fetch_content env i t of Inr (Some x) \<Rightarrow> False | _ \<Rightarrow> True)"

text \<open>
  The page scan as the specification words it, to compare with \<^const>\<open>pages_loop\<close>: the
  source is taken from the first page whose extract is non-empty, and a page with an empty
  extract is passed over.
\<close>

fun pages_loop_as_specified :: "pyval \<Rightarrow> (pystr \<times> pyval) list \<Rightarrow> py_exn + source option" where
  "pages_loop_as_specified title_v [] = Inr None"
| "pages_loop_as_specified title_v ((page_id, page) # rest) =
     (case py_contains (ascii ''extract'') page of
        Inl e \<Rightarrow> Inl e
      | Inr b \<Rightarrow>
          if \<not> b then pages_loop_as_specified title_v rest
          else (case py_getitem page (ascii ''extract'') of
                  Inl e \<Rightarrow> Inl e
                | Inr ex \<Rightarrow>
                   if \<not> py_truthy ex then pages_loop_as_specified title_v rest
                   else
                   (case py_slice_to ex 1200 of
                      Inl e \<Rightarrow> Inl e
                    | Inr text \<Rightarrow>
                       (case py_replace_space title_v of
                          Inl e \<Rightarrow> Inl e
                        | Inr t \<Rightarrow>
                            Inr (Some \<lparr>title = title_v,
                                       url = ascii ''https://en.wikipedia.org/wiki/'' @ t,
                                       snippet = text\<rparr>)))))"

section \<open>Example runs\<close>

text \<open>Well-formed bodies of the two endpoints, and concrete worlds to run the pipeline in.\<close>

definition title_result :: "string \<Rightarrow> pyval" where
  "title_result t = PDict [(ascii ''title'', PStr (ascii t))]"

definition search_body :: "pyval list \<Rightarrow> pyval" where
  "search_body rs = PDict [(ascii ''query'', PDict [(ascii ''search'', PList rs)])]"

definition pages_body :: "(pystr \<times> pyval) list \<Rightarrow> pyval" where
  "pages_body kvs = PDict [(ascii ''query'', PDict [(ascii ''pages'', PDict kvs)])]"

definition extract_page :: "string \<Rightarrow> pyval" where
  "extract_page e = PDict [(ascii ''extract'', PStr (ascii e))]"

text \<open>
  The search finds two titles and both content requests succeed; the clock stands still.
\<close>

definition turing_env :: wiki_env where
  "turing_env =
     \<lparr>str_of_value = (\<lambda>v. []), str_of_exn = (\<lambda>e. []),
      clock = (\<lambda>n. 0), float_sub = (\<lambda>a b. a - b),
      search_get = (\<lambda>q n. Inr (search_body [title_result ''Alan Turing'',
                                               title_result ''Turing Award''])),
      content_get = (\<lambda>i t. Inr (pages_body [(ascii ''1'', extract_page ''text'')]))\<rparr>"

definition turing_source :: "string \<Rightarrow> string \<Rightarrow> source" where
  "turing_source t u =
     \<lparr>title = PStr (ascii t), url = ascii ''https://en.wikipedia.org/wiki/'' @ ascii u,
      snippet = PStr (ascii ''text'')\<rparr>"

definition turing_data :: research_data where
  "turing_data =
     \<lparr>query = ascii ''Turing'',
      sources = [turing_source ''Alan Turing'' ''Alan_Turing'',
                 turing_source ''Turing Award'' ''Turing_Award''],
      summary = format_block (\<lambda>v. []) 1 (turing_source ''Alan Turing'' ''Alan_Turing'')
                @ format_block (\<lambda>v. []) 2 (turing_source ''Turing Award'' ''Turing_Award'')\<rparr>"

text \<open>The search finds nothing.\<close>

definition empty_env :: wiki_env where
  "empty_env = turing_env\<lparr>search_get := (\<lambda>q n. Inr (search_body []))\<rparr>"

text \<open>Every content request times out.\<close>

definition failing_env :: wiki_env where
  "failing_env = turing_env\<lparr>content_get := (\<lambda>i t. Inl (LibraryError (ascii ''Read timed out'')))\<rparr>"

text \<open>
  A clock that passes the deadline after the first candidate: readings 0 and 1 are at the
  start, every later reading is 100 seconds on.
\<close>

definition late_clock :: "nat \<Rightarrow> rat" where
  "late_clock k = (if k < 2 then 0 else 100)"

definition cut_env :: wiki_env where
  "cut_env = turing_env\<lparr>clock := late_clock\<rparr>"

text \<open>The second content request times out; with and without the late clock.\<close>

definition half_env :: wiki_env where
  "half_env = turing_env\<lparr>content_get := (\<lambda>i t.
       if i = 0 then Inr (pages_body [(ascii ''1'', extract_page ''text'')])
       else Inl (LibraryError (ascii ''Read timed out'')))\<rparr>"

definition half_cut_env :: wiki_env where
  "half_cut_env = half_env\<lparr>clock := late_clock\<rparr>"

definition alan_data :: research_data where
  "alan_data =
     \<lparr>query = ascii ''Turing'',
      sources = [turing_source ''Alan Turing'' ''Alan_Turing''],
      summary = format_block (\<lambda>v. []) 1 (turing_source ''Alan Turing'' ''Alan_Turing'')\<rparr>"

text \<open>
  Content bodies with several page ids: the first page has an empty extract; and a missing
  page comes before two pages with text.
\<close>

definition two_pages :: "(pystr \<times> pyval) list" where
  "two_pages = [(ascii ''11'', PDict [(ascii ''extract'', PStr [])]),
                (ascii ''22'', extract_page ''Text'')]"

definition three_pages :: "(pystr \<times> pyval) list" where
  "three_pages = [(ascii ''-1'', PDict [(ascii ''missing'', PStr [])]),
                  (ascii ''11'', extract_page ''First''), (ascii ''22'', extract_page ''Second'')]"

definition pages_env :: "(pystr \<times> pyval) list \<Rightarrow> wiki_env" where
  "pages_env kvs = turing_env\<lparr>content_get := (\<lambda>i t. Inr (pages_body kvs))\<rparr>"

text \<open>
  Provider worlds: both keys set, OpenRouter answers 503 and Groq answers; and OpenRouter
  answers a completion whose \<^verbatim>\<open>content\<close> is \<^verbatim>\<open>null\<close>.
\<close>

definition fallback_env :: llm_env where
  "fallback_env =
     \<lparr>str_of_value = (\<lambda>v. []), str_of_exn = (\<lambda>e. []),
      openrouter_api_key = ascii ''sk-or-1'', groq_api_key = ascii ''gsk-1'',
      openrouter_post = (\<lambda>m t. Inl (LibraryError (ascii ''503 Server Error''))),
      groq_create = (\<lambda>m t. Inr \<lparr>choices = [Some (PStr (ascii ''Summary''))],
                                  resp_str = ascii ''ChatCompletion''\<rparr>)\<rparr>"

definition null_content_env :: llm_env where
  "null_content_env =
     fallback_env\<lparr>openrouter_post := (\<lambda>m t. Inr (PDict [(ascii ''choices'',
        PList [PDict [(ascii ''message'', PDict [(ascii ''role'', PStr (ascii ''assistant'')),
                                                 (ascii ''content'', PNone)])]])]))\<rparr>"

definition ping :: "message list" where
  "ping = [(ascii ''user'', ascii ''Ping'')]"


text \<open>
  One candidate whose extract has 1201 characters, one more than the snippet keeps.
\<close>

definition long_text :: pystr where
  "long_text = replicate 1201 97"

definition long_env :: wiki_env where
  "long_env =
     turing_env\<lparr>search_get := (\<lambda>q n. Inr (search_body [title_result ''A''])),
                content_get := (\<lambda>i t. Inr (pages_body
                   [(ascii ''1'', PDict [(ascii ''extract'', PStr long_text)])]))\<rparr>"

definition long_source :: source where
  "long_source =
     \<lparr>title = PStr (ascii ''A''), url = ascii ''https://en.wikipedia.org/wiki/A'',
      snippet = PStr (take 1200 long_text)\<rparr>"

definition long_data :: research_data where
  "long_data =
     \<lparr>query = ascii ''A'', sources = [long_source],
      summary = format_block (\<lambda>v. []) 1 long_source\<rparr>"

section \<open>Properties of the loop\<close>

lemmas run_defs =
  deep_research_def has_nested_def get_nested_def fetch_content_def accept_def init_state_def
  slice_to_def ascii_def format_block_def format_value_def research_failed_def Let_def
  title_result_def search_body_def pages_body_def extract_page_def str_nat.simps

lemma py_getitem_contains: "py_getitem d k = Inr v \<Longrightarrow> py_contains k d = Inr True"
  by (cases d) (auto split: option.splits dest: map_of_SomeD intro: rev_image_eqI)

lemma get_nested_has_nested: "get_nested k1 k2 d = Inr v \<Longrightarrow> has_nested k1 k2 d = Inr True"
  by (auto simp: get_nested_def has_nested_def py_getitem_contains split: sum.splits)

lemma slice_iter_length:
  "0 \<le> n \<Longrightarrow> py_slice_to v n = Inr sl \<Longrightarrow> py_iter sl = Inr cands \<Longrightarrow> length cands \<le> nat n"
  by (cases v) (auto simp: slice_to_def)

lemma loop_sources_bound:
  "research_loop env s l st rs = (ex, st') \<Longrightarrow>
   length (results_sources st') \<le> length (results_sources st) + length rs"
proof (induction rs arbitrary: st)
  case Nil
  then show ?case by simp
next
  case (Cons r rs)
  from Cons.prems show ?case
    by (auto simp: Let_def accept_def split: sum.splits option.splits if_splits dest!: Cons.IH)
qed

lemma loop_requests_bound:
  "research_loop env s l st rs = (ex, st') \<Longrightarrow>
   length (content_requests st') \<le> length (content_requests st) + length rs"
proof (induction rs arbitrary: st)
  case Nil
  then show ?case by simp
next
  case (Cons r rs)
  from Cons.prems show ?case
    by (auto simp: Let_def accept_def split: sum.splits option.splits if_splits dest!: Cons.IH)
qed

lemma loop_summary_length:
  "research_loop env s l st rs = (ex, st') \<Longrightarrow>
   length (content_summary st) = length (results_sources st) \<Longrightarrow>
   length (content_summary st') = length (results_sources st')"
proof (induction rs arbitrary: st)
  case Nil
  then show ?case by simp
next
  case (Cons r rs)
  from Cons.prems show ?case
    by (auto simp: Let_def accept_def split: sum.splits option.splits if_splits dest!: Cons.IH)
qed

lemma loop_sources_prefix:
  "research_loop env s l st rs = (ex, st') \<Longrightarrow> prefix (results_sources st) (results_sources st')"
proof (induction rs arbitrary: st)
  case Nil
  then show ?case by simp
next
  case (Cons r rs)
  from Cons.prems show ?case
    by (auto simp: Let_def accept_def split: sum.splits option.splits if_splits
             dest!: Cons.IH dest: append_prefixD)
qed

text \<open>What a successful run went through.\<close>

lemma deep_research_Success:
  assumes "fst (deep_research env q d l n) = Success r"
  shows "\<exists>sd sr sl cands st.
           search_get env q n = Inr sd
         \<and> get_nested (ascii ''query'') (ascii ''search'') sd = Inr sr
         \<and> py_slice_to sr n = Inr sl \<and> py_iter sl = Inr cands
         \<and> research_loop env (clock env 0) l init_state cands = (None, st)
         \<and> content_summary st \<noteq> []
         \<and> sources r = results_sources st
         \<and> snd (deep_research env q d l n) = content_requests st"
  using assms
  by (auto simp: deep_research_def Let_def research_failed_def
           split: sum.splits if_splits prod.splits option.splits)

lemma turing_run:
  "deep_research turing_env (ascii ''Turing'') 2 120 2 =
     (Success turing_data, [PStr (ascii ''Alan Turing''), PStr (ascii ''Turing Award'')])"
  by (simp add: run_defs turing_env_def turing_data_def turing_source_def)

lemma replace_space_map: "replace_space s = map (\<lambda>c. if c = 32 then 95 else c) s"
  by (induction s) simp_all

lemma py_slice_to_len:
  "0 \<le> n \<Longrightarrow> py_slice_to ex n = Inr v \<Longrightarrow> \<exists>k. py_len v = Inr k \<and> k \<le> nat n"
  by (cases ex) (auto simp: slice_to_def)

lemma pages_loop_Some:
  "pages_loop t kvs = Inr (Some src) \<Longrightarrow>
   \<exists>pid page ex s. (pid, page) \<in> set kvs
      \<and> py_getitem page (ascii ''extract'') = Inr ex
      \<and> py_slice_to ex 1200 = Inr (snippet src)
      \<and> t = PStr s \<and> title src = t
      \<and> url src = ascii ''https://en.wikipedia.org/wiki/'' @ replace_space s"
proof (induction kvs)
  case Nil
  then show ?case by simp
next
  case (Cons kv kvs)
  obtain pid page where kv: "kv = (pid, page)" by (cases kv)
  show ?case
  proof (cases "py_contains (ascii ''extract'') page = Inr False")
    case True
    with Cons.prems kv have "pages_loop t kvs = Inr (Some src)" by simp
    from Cons.IH [OF this] show ?thesis by auto
  next
    case False
    with Cons.prems kv show ?thesis
      by (cases t) (fastforce split: sum.splits if_splits)+
  qed
qed

lemma py_items_Inr: "py_items pages = Inr kvs \<longleftrightarrow> pages = PDict kvs"
  by (cases pages) auto

lemma fetch_content_Some:
  "fetch_content env i t = Inr (Some src) \<Longrightarrow>
   \<exists>data kvs. content_get env i t = Inr data
      \<and> get_nested (ascii ''query'') (ascii ''pages'') data = Inr (PDict kvs)
      \<and> pages_loop t kvs = Inr (Some src)"
  by (auto simp: fetch_content_def py_items_Inr split: sum.splits if_splits)

lemma loop_Cons_cases:
  assumes "research_loop env s l st (r # rs) = (ex, st')"
  shows "results_sources st' = results_sources st \<or>
     (\<exists>t st2. py_get r (ascii ''title'') (PStr []) = Inr t
        \<and> research_loop env s l st2 rs = (ex, st')
        \<and> (results_sources st2 = results_sources st \<or>
            (\<exists>x. fetch_content env (length (content_requests st)) t = Inr (Some x)
                 \<and> results_sources st2 = results_sources st @ [x])))"
  using assms
  by (auto simp: Let_def accept_def split: sum.splits option.splits if_splits)

lemma loop_sources_origin:
  "research_loop env s l st rs = (ex, st') \<Longrightarrow> src \<in> set (results_sources st') \<Longrightarrow>
   src \<in> set (results_sources st) \<or>
   (\<exists>r i t. r \<in> set rs \<and> py_get r (ascii ''title'') (PStr []) = Inr t
        \<and> fetch_content env i t = Inr (Some src))"
proof (induction rs arbitrary: st)
  case Nil
  then show ?case by simp
next
  case (Cons r rs)
  from loop_Cons_cases [OF Cons.prems(1)] show ?case
  proof (elim disjE exE conjE)
    assume "results_sources st' = results_sources st"
    with Cons.prems(2) show ?thesis by simp
  next
    fix t st2
    assume t: "py_get r (ascii ''title'') (PStr []) = Inr t"
      and run: "research_loop env s l st2 rs = (ex, st')"
      and same: "results_sources st2 = results_sources st"
    from Cons.IH [OF run Cons.prems(2)] same show ?thesis by auto
  next
    fix t st2 x
    assume t: "py_get r (ascii ''title'') (PStr []) = Inr t"
      and run: "research_loop env s l st2 rs = (ex, st')"
      and x: "fetch_content env (length (content_requests st)) t = Inr (Some x)"
      and more: "results_sources st2 = results_sources st @ [x]"
    from Cons.IH [OF run Cons.prems(2)] more t x show ?thesis by auto
  qed
qed

lemma pages_loop_skip:
  "\<forall>pg \<in> snd ` set pre. py_contains (ascii ''extract'') pg = Inr False \<Longrightarrow>
   pages_loop t (pre @ rest) = pages_loop t rest"
  by (induction pre) auto

lemma loop_requests_prefix:
  "research_loop env s l st rs = (ex, st') \<Longrightarrow> prefix (content_requests st) (content_requests st')"
proof (induction rs arbitrary: st)
  case Nil
  then show ?case by simp
next
  case (Cons r rs)
  from Cons.prems show ?case
    by (auto simp: Let_def accept_def split: sum.splits option.splits if_splits
             dest!: Cons.IH dest: append_prefixD)
qed

lemma prefix_snoc_nth:
  "prefix (xs @ [x]) ys \<Longrightarrow> length xs < length ys \<and> ys ! length xs = x"
  by (auto simp: prefix_def)

lemma loop_all_fail:
  "research_loop env s l st rs = (ex, st') \<Longrightarrow>
   \<forall>r \<in> set rs. is_dict r \<Longrightarrow>
   \<forall>i. length (content_requests st) \<le> i \<longrightarrow> i < length (content_requests st') \<longrightarrow>
       fetch_fails env i (content_requests st' ! i) \<Longrightarrow>
   ex = None \<and> results_sources st' = results_sources st \<and> content_summary st' = content_summary st"
proof (induction rs arbitrary: st)
  case Nil
  then show ?case by simp
next
  case (Cons r rs)
  obtain kvs where r: "r = PDict kvs"
    using Cons.prems(2) by (cases r) auto
  define t where "t = (case map_of kvs (ascii ''title'') of None \<Rightarrow> PStr [] | Some v \<Rightarrow> v)"
  define st2 where "st2 = st\<lparr>clock_reads := Suc (clock_reads st),
                               content_requests := content_requests st @ [t]\<rparr>"
  show ?case
  proof (cases "float_sub env (clock env (clock_reads st)) s > of_int l")
    case True
    with Cons.prems(1) show ?thesis by (auto simp: Let_def)
  next
    case False
    have fails: "fetch_fails env (length (content_requests st)) t"
      if run: "research_loop env s l st3 rs = (ex, st')"
        and reqs: "content_requests st3 = content_requests st @ [t]" for st3
    proof -
      from loop_requests_prefix [OF run] reqs
      have "length (content_requests st) < length (content_requests st')
            \<and> content_requests st' ! length (content_requests st) = t"
        by (simp add: prefix_snoc_nth)
      with Cons.prems(3) show ?thesis by auto
    qed
    have get: "py_get r (ascii ''title'') (PStr []) = Inr t"
      by (simp add: r t_def)
    have run: "research_loop env s l st2 rs = (ex, st')"
    proof (cases "\<exists>x. fetch_content env (length (content_requests st)) t = Inr (Some x)")
      case True
      then obtain x where x: "fetch_content env (length (content_requests st)) t = Inr (Some x)"
        by blast
      with False get Cons.prems(1)
      have "research_loop env s l (accept (str_of_value env) x st2) rs = (ex, st')"
        by (simp add: Let_def st2_def)
      from fails [OF this] x show ?thesis
        by (simp add: accept_def st2_def fetch_fails_def)
    next
      case no: False
      with False get Cons.prems(1) show ?thesis
        by (auto simp: Let_def st2_def split: sum.splits option.splits)
    qed
    have "ex = None \<and> results_sources st' = results_sources st2
          \<and> content_summary st' = content_summary st2"
      using Cons.prems(2,3) by (intro Cons.IH [OF run]) (auto simp: st2_def)
    then show ?thesis by (simp add: st2_def)
  qed
qed

lemma deep_research_candidates:
  assumes "search_get env q n = Inr sd"
    and "get_nested (ascii ''query'') (ascii ''search'') sd = Inr (PList rs)" and "rs \<noteq> []"
  shows "deep_research env q d l n =
     (case research_loop env (clock env 0) l init_state (slice_to n rs) of
        (Some e, st) \<Rightarrow> (research_failed env e, content_requests st)
      | (None, st) \<Rightarrow>
          if content_summary st = []
          then (Failure (ascii ''Could not retrieve any content''), content_requests st)
          else (Success \<lparr>query = q, sources = results_sources st,
                         summary = concat (content_summary st)\<rparr>,
                content_requests st))"
  using assms get_nested_has_nested [OF assms(2)]
  by (simp add: deep_research_def)

lemma failing_run:
  "deep_research failing_env (ascii ''Turing'') 2 120 2 =
     (Failure (ascii ''Could not retrieve any content''),
      [PStr (ascii ''Alan Turing''), PStr (ascii ''Turing Award'')])"
  by (simp add: run_defs failing_env_def turing_env_def)

lemma fetch_content_cong:
  "content_get env' = content_get env \<Longrightarrow> fetch_content env' i t = fetch_content env i t"
  by (simp add: fetch_content_def)

lemma loop_deadline_prefix:
  assumes "content_get free = content_get env" and "str_of_value free = str_of_value env"
    and "\<forall>k. \<not> float_sub free (clock free k) s' > of_int l'"
  shows "research_loop env s l st rs = (ex, st1) \<Longrightarrow>
         research_loop free s' l' st rs = (ex', st2) \<Longrightarrow>
         prefix (results_sources st1) (results_sources st2)
         \<and> prefix (content_requests st1) (content_requests st2)"
proof (induction rs arbitrary: st)
  case Nil
  then show ?case by simp
next
  case (Cons r rs)
  note fc = fetch_content_cong [OF assms(1)]
  show ?case
  proof (cases "float_sub env (clock env (clock_reads st)) s > of_int l")
    case True
    with Cons.prems(1) have "results_sources st1 = results_sources st"
      "content_requests st1 = content_requests st"
      by (auto simp: Let_def)
    with loop_sources_prefix [OF Cons.prems(2)] loop_requests_prefix [OF Cons.prems(2)]
    show ?thesis by simp
  next
    case False
    with Cons.prems assms(2,3) show ?thesis
      by (auto simp: Let_def fc split: sum.splits option.splits dest: Cons.IH)
  qed
qed

lemma loop_deadline_stops:
  "float_sub env (clock env (clock_reads st + k)) s > of_int l \<Longrightarrow>
   research_loop env s l st rs = (ex, st') \<Longrightarrow>
   length (content_requests st') \<le> length (content_requests st) + k"
proof (induction rs arbitrary: st k)
  case Nil
  then show ?case by simp
next
  case (Cons r rs)
  show ?case
  proof (cases k)
    case 0
    with Cons.prems show ?thesis by (auto simp: Let_def)
  next
    case (Suc j)
    have step: "length (content_requests st') \<le> length (content_requests st) + k"
      if "research_loop env s l st2 rs = (ex, st')"
        and "clock_reads st2 = Suc (clock_reads st)"
        and "length (content_requests st2) = Suc (length (content_requests st))" for st2
      using Cons.IH [OF _ that(1), of j] Cons.prems(1) that(2,3) Suc by simp
    from Cons.prems(2) show ?thesis
      by (auto simp: Let_def accept_def split: sum.splits option.splits if_splits
               intro!: step [simplified])
  qed
qed

lemma deep_research_requests_prefix:
  assumes "search_get free = search_get env" and "content_get free = content_get env"
    and "str_of_value free = str_of_value env"
    and "\<forall>k. \<not> float_sub free (clock free k) (clock free 0) > of_int l'"
  shows "prefix (snd (deep_research env q d l n)) (snd (deep_research free q d' l' n))"
proof -
  have pre: "prefix (content_requests st1) (content_requests st2)"
    if "research_loop env (clock env 0) l init_state cands = (ex, st1)"
      and "research_loop free (clock free 0) l' init_state cands = (ex', st2)"
    for cands ex ex' st1 st2
    using loop_deadline_prefix [OF assms(2,3,4) that] by simp
  show ?thesis
    by (auto simp: deep_research_def Let_def assms(1)
             split: sum.splits prod.splits option.splits intro: pre)
qed

lemma cut_run:
  "deep_research cut_env (ascii ''Turing'') 2 30 2 = (Success alan_data, [PStr (ascii ''Alan Turing'')])"
  by (simp add: run_defs cut_env_def late_clock_def turing_env_def alan_data_def turing_source_def)

lemma turing_run_30:
  "deep_research turing_env (ascii ''Turing'') 2 30 2 =
     (Success turing_data, [PStr (ascii ''Alan Turing''), PStr (ascii ''Turing Award'')])"
  by (simp add: run_defs turing_env_def turing_data_def turing_source_def)

lemma py_slice_to_take:
  "py_slice_to ex 1200 = Inr v \<Longrightarrow>
   (\<exists>e. ex = PStr e \<and> v = PStr (take 1200 e)) \<or> (\<exists>xs. ex = PList xs \<and> v = PList (take 1200 xs))"
  by (cases ex) (auto simp: slice_to_def)

lemma long_run:
  "deep_research long_env (ascii ''A'') 2 120 1 = (Success long_data, [PStr (ascii ''A'')])"
  by (simp add: run_defs long_env_def turing_env_def long_data_def long_source_def)

lemma fetch_fails_cong:
  "content_get env' = content_get env \<Longrightarrow> fetch_fails env' i t = fetch_fails env i t"
  by (simp add: fetch_fails_def fetch_content_def)

lemma loop_accepts_iff:
  "research_loop env s l st rs = (ex, st') \<Longrightarrow>
   (results_sources st' \<noteq> results_sources st) =
   (\<exists>i. length (content_requests st) \<le> i \<and> i < length (content_requests st')
        \<and> \<not> fetch_fails env i (content_requests st' ! i))"
proof (induction rs arbitrary: st)
  case Nil
  then show ?case by auto
next
  case (Cons r rs)
  let ?n = "length (content_requests st)"
  show ?case
  proof (cases "float_sub env (clock env (clock_reads st)) s > of_int l")
    case True
    with Cons.prems show ?thesis by (auto simp: Let_def)
  next
    case live: False
    show ?thesis
    proof (cases "py_get r (ascii ''title'') (PStr [])")
      case (Inl e)
      with live Cons.prems show ?thesis by (auto simp: Let_def)
    next
      case (Inr t)
      define st2 where "st2 = st\<lparr>clock_reads := Suc (clock_reads st),
                                   content_requests := content_requests st @ [t]\<rparr>"
      have nth: "?n < length (content_requests st') \<and> content_requests st' ! ?n = t"
        if run: "research_loop env s l st3 rs = (ex, st')"
          and reqs: "content_requests st3 = content_requests st @ [t]" for st3
        using loop_requests_prefix [OF run] reqs by (simp add: prefix_snoc_nth)
      show ?thesis
      proof (cases "\<exists>x. fetch_content env ?n t = Inr (Some x)")
        case True
        then obtain x where x: "fetch_content env ?n t = Inr (Some x)" by blast
        with live Inr Cons.prems
        have run: "research_loop env s l (accept (str_of_value env) x st2) rs = (ex, st')"
          by (simp add: Let_def st2_def)
        have "prefix (results_sources st @ [x]) (results_sources st')"
          using loop_sources_prefix [OF run] by (simp add: accept_def st2_def)
        then have ne: "results_sources st' \<noteq> results_sources st"
          by (auto simp: prefix_def)
        have "?n < length (content_requests st') \<and> content_requests st' ! ?n = t"
          by (rule nth [OF run]) (simp add: accept_def st2_def)
        with x have "\<exists>i. ?n \<le> i \<and> i < length (content_requests st')
                      \<and> \<not> fetch_fails env i (content_requests st' ! i)"
          by (intro exI [of _ ?n]) (simp add: fetch_fails_def)
        with ne show ?thesis by simp
      next
        case False
        with live Inr Cons.prems have run: "research_loop env s l st2 rs = (ex, st')"
          by (auto simp: Let_def st2_def split: sum.splits option.splits)
        from False have fails: "fetch_fails env ?n t"
          by (auto simp: fetch_fails_def split: sum.splits option.splits)
        have at: "?n < length (content_requests st') \<and> content_requests st' ! ?n = t"
          by (rule nth [OF run]) (simp add: st2_def)
        have "(results_sources st' \<noteq> results_sources st) =
              (\<exists>i. Suc ?n \<le> i \<and> i < length (content_requests st')
                   \<and> \<not> fetch_fails env i (content_requests st' ! i))"
          using Cons.IH [OF run] by (simp add: st2_def)
        also have "\<dots> = (\<exists>i. ?n \<le> i \<and> i < length (content_requests st')
                             \<and> \<not> fetch_fails env i (content_requests st' ! i))"
        proof
          assume "\<exists>i. Suc ?n \<le> i \<and> i < length (content_requests st')
                   \<and> \<not> fetch_fails env i (content_requests st' ! i)"
          then obtain i where "Suc ?n \<le> i" "i < length (content_requests st')"
            "\<not> fetch_fails env i (content_requests st' ! i)" by blast
          then show "\<exists>i. ?n \<le> i \<and> i < length (content_requests st')
                        \<and> \<not> fetch_fails env i (content_requests st' ! i)"
            by (intro exI [of _ i]) simp
        next
          assume "\<exists>i. ?n \<le> i \<and> i < length (content_requests st')
                   \<and> \<not> fetch_fails env i (content_requests st' ! i)"
          then obtain i where i: "?n \<le> i" "i < length (content_requests st')"
            "\<not> fetch_fails env i (content_requests st' ! i)" by blast
          with fails at have "i \<noteq> ?n" by auto
          with i show "\<exists>i. Suc ?n \<le> i \<and> i < length (content_requests st')
                        \<and> \<not> fetch_fails env i (content_requests st' ! i)"
            by (intro exI [of _ i]) auto
        qed
        finally show ?thesis .
      qed
    qed
  qed
qed

lemma loop_two_runs_step:
  assumes "content_get free = content_get env" and "str_of_value free = str_of_value env"
    and "\<not> float_sub free (clock free (clock_reads st)) s' > of_int l'"
    and "\<not> float_sub env (clock env (clock_reads st)) s > of_int l"
    and "research_loop env s l st (r # rs) = (ex, st1)"
    and "research_loop free s' l' st (r # rs) = (ex', st2)"
  shows "st1 = st2 \<or>
     (\<exists>st3. research_loop env s l st3 rs = (ex, st1) \<and> research_loop free s' l' st3 rs = (ex', st2))"
  using assms(2-6)
  by (auto simp: Let_def fetch_content_cong [OF assms(1)] split: sum.splits option.splits)

lemma loop_deadline_strict:
  assumes "content_get free = content_get env" and "str_of_value free = str_of_value env"
    and "\<forall>k. \<not> float_sub free (clock free k) s' > of_int l'"
  shows "research_loop env s l st rs = (ex, st1) \<Longrightarrow>
         research_loop free s' l' st rs = (ex', st2) \<Longrightarrow>
         (results_sources st1 \<noteq> results_sources st2) =
         (\<exists>i. length (content_requests st1) \<le> i \<and> i < length (content_requests st2)
              \<and> \<not> fetch_fails env i (content_requests st2 ! i))"
proof (induction rs arbitrary: st)
  case Nil
  then show ?case by auto
next
  case (Cons r rs)
  show ?case
  proof (cases "float_sub env (clock env (clock_reads st)) s > of_int l")
    case True
    with Cons.prems(1) have eq: "results_sources st1 = results_sources st"
      "content_requests st1 = content_requests st"
      by (auto simp: Let_def)
    have "(results_sources st1 \<noteq> results_sources st2) =
          (results_sources st2 \<noteq> results_sources st)"
      using eq by auto
    also have "\<dots> = (\<exists>i. length (content_requests st) \<le> i \<and> i < length (content_requests st2)
              \<and> \<not> fetch_fails free i (content_requests st2 ! i))"
      by (rule loop_accepts_iff [OF Cons.prems(2)])
    finally show ?thesis
      unfolding eq fetch_fails_cong [OF assms(1)] .
  next
    case False
    from assms(3) have live: "\<not> float_sub free (clock free (clock_reads st)) s' > of_int l'"
      by blast
    from loop_two_runs_step [OF assms(1,2) live False Cons.prems] show ?thesis
    proof (elim disjE exE conjE)
      assume "st1 = st2"
      then show ?thesis by auto
    next
      fix st3
      assume "research_loop env s l st3 rs = (ex, st1)"
        and "research_loop free s' l' st3 rs = (ex', st2)"
      then show ?thesis by (rule Cons.IH)
    qed
  qed
qed

lemma deep_research_requests_bound:
  assumes "float_sub env (clock env (Suc k)) (clock env 0) > of_int l"
  shows "length (snd (deep_research env q d l n)) \<le> k"
proof -
  have "length (content_requests st) \<le> k"
    if "research_loop env (clock env 0) l init_state cands = (ex, st)" for cands ex st
    using loop_deadline_stops [OF _ that, of k] assms by (simp add: init_state_def)
  then show ?thesis
    by (auto simp: deep_research_def Let_def split: sum.splits prod.splits option.splits)
qed

lemma deep_research_sources_prefix:
  assumes "search_get free = search_get env" and "content_get free = content_get env"
    and "str_of_value free = str_of_value env"
    and "\<forall>j. \<not> float_sub free (clock free j) (clock free 0) > of_int l'"
    and "fst (deep_research env q d l n) = Success r"
    and "fst (deep_research free q d' l' n) = Success r'"
  shows "prefix (sources r) (sources r')
         \<and> (strict_prefix (sources r) (sources r') \<longleftrightarrow>
              (\<exists>i. length (snd (deep_research env q d l n)) \<le> i
                   \<and> i < length (snd (deep_research free q d' l' n))
                   \<and> \<not> fetch_fails env i (snd (deep_research free q d' l' n) ! i)))"
proof -
  from deep_research_Success [OF assms(5)] obtain sd sr sl cands st where
    s: "search_get env q n = Inr sd"
      "get_nested (ascii ''query'') (ascii ''search'') sd = Inr sr"
      "py_slice_to sr n = Inr sl" "py_iter sl = Inr cands" and
    loop: "research_loop env (clock env 0) l init_state cands = (None, st)" and
    src: "sources r = results_sources st" and
    reqs: "snd (deep_research env q d l n) = content_requests st"
    by blast
  from deep_research_Success [OF assms(6)] obtain sd' sr' sl' cands' st' where
    s': "search_get free q n = Inr sd'"
      "get_nested (ascii ''query'') (ascii ''search'') sd' = Inr sr'"
      "py_slice_to sr' n = Inr sl'" "py_iter sl' = Inr cands'" and
    loop': "research_loop free (clock free 0) l' init_state cands' = (None, st')" and
    src': "sources r' = results_sources st'" and
    reqs': "snd (deep_research free q d' l' n) = content_requests st'"
    by blast
  from s s' assms(1) have "cands' = cands" by simp
  with loop' have loop'': "research_loop free (clock free 0) l' init_state cands = (None, st')"
    by simp
  have pre: "prefix (sources r) (sources r')"
    using loop_deadline_prefix [OF assms(2,3,4) loop loop''] src src' by simp
  have "(sources r \<noteq> sources r') =
        (\<exists>i. length (content_requests st) \<le> i \<and> i < length (content_requests st')
             \<and> \<not> fetch_fails env i (content_requests st' ! i))"
    unfolding src src' by (rule loop_deadline_strict [OF assms(2,3,4) loop loop''])
  with pre show ?thesis
    unfolding reqs reqs' strict_prefix_def by simp
qed

section \<open>Properties of the summarizer\<close>

text \<open>
  \<^verbatim>\<open>generate_summary\<close> returns in every case: without a key it returns a fixed notice
  and calls no provider, and an exception of \<^verbatim>\<open>call_llm\<close> becomes a notice.
\<close>

lemma generate_summary_never_raises:
  "\<exists>v. fst (generate_summary env research q) = Inr v"
  by (auto simp: generate_summary_def split: sum.splits prod.splits)

lemma generate_summary_without_keys:
  "openrouter_api_key env = [] \<Longrightarrow> groq_api_key env = [] \<Longrightarrow>
   generate_summary env research q =
     (Inr (PStr (ascii ''AI summary unavailable - set API key in configuration'')), [])"
  by (simp add: generate_summary_def)

lemma generate_summary_provider_failure:
  "openrouter_api_key env \<noteq> [] \<or> groq_api_key env \<noteq> [] \<Longrightarrow>
   source_lines (str_of_value env) (slice_to 5 (sources research)) = Inr ls \<Longrightarrow>
   call_llm env (summary_messages q (join_lines ls)) (7 / 10) = (Inl e, evs) \<Longrightarrow>
   generate_summary env research q =
     (Inr (PStr (ascii ''Summary generation failed: '' @ exn_message (str_of_exn env) e)), evs)"
  by (auto simp: generate_summary_def)

section \<open>The claims\<close>

text \<open>
  C1. With \<^verbatim>\<open>max_urls = N\<close> (not negative, as every query has it), a run that returns
  success returns at least one source and at most \<open>N\<close> sources.
\<close>

theorem success_sources_between_one_and_max:
  assumes "0 \<le> max_urls" and "fst (deep_research env q d l max_urls) = Success r"
  shows "1 \<le> length (sources r) \<and> int (length (sources r)) \<le> max_urls"
proof -
  from deep_research_Success [OF assms(2)] obtain sr sl cands st where
    sl: "py_slice_to sr max_urls = Inr sl" and it: "py_iter sl = Inr cands" and
    loop: "research_loop env (clock env 0) l init_state cands = (None, st)" and
    ne: "content_summary st \<noteq> []" and src: "sources r = results_sources st"
    by blast
  have "length (content_summary st) = length (results_sources st)"
    using loop_summary_length [OF loop] by (simp add: init_state_def)
  with ne have one: "1 \<le> length (results_sources st)"
    by (cases "results_sources st") auto
  have "length (results_sources st) \<le> length cands"
    using loop_sources_bound [OF loop] by (simp add: init_state_def)
  also have "\<dots> \<le> nat max_urls"
    by (rule slice_iter_length [OF assms(1) sl it])
  finally have "int (length (results_sources st)) \<le> max_urls"
    using assms(1) by linarith
  with one src show ?thesis by simp
qed

theorem success_sources_between_one_and_max_witness:
  "(0::int) \<le> 2
   \<and> fst (deep_research turing_env (ascii ''Turing'') 2 120 2) = Success turing_data
   \<and> 1 \<le> length (sources turing_data) \<and> int (length (sources turing_data)) \<le> 2"
proof -
  have run: "fst (deep_research turing_env (ascii ''Turing'') 2 120 2) = Success turing_data"
    by (simp add: turing_run)
  have nonneg: "(0::int) \<le> 2" by simp
  from success_sources_between_one_and_max [OF nonneg run] run show ?thesis by simp
qed

text \<open>
  C2, as amended. Take a run whose deadline test is found true at the check before
  iteration \<open>k\<close> (the reading after \<open>k\<close> earlier checks). Whatever the run returns, it
  issues at most \<open>k\<close> content requests: none after that check. Take further a run with
  the same search result and the same content responses whose deadline test is never true.
  The content requests of the first run are a prefix of those of the second. When both
  return success, the sources of the first are a prefix, in fetch order, of the sources of
  the second; the prefix is strict exactly when one of the content fetches that only the
  second run issues is accepted, and the two lists are equal otherwise. (A run that returns
  a failure returns no sources.)
\<close>

theorem deadline_run_is_prefix_of_free_run:
  assumes "float_sub env (clock env (Suc k)) (clock env 0) > of_int l"
  shows "length (snd (deep_research env q d l n)) \<le> k
     \<and> (search_get free = search_get env \<and> content_get free = content_get env
        \<and> str_of_value free = str_of_value env
        \<and> (\<forall>j. \<not> float_sub free (clock free j) (clock free 0) > of_int l')
        \<longrightarrow> prefix (snd (deep_research env q d l n)) (snd (deep_research free q d' l' n))
          \<and> (fst (deep_research env q d l n) = Success r
             \<and> fst (deep_research free q d' l' n) = Success r'
             \<longrightarrow> prefix (sources r) (sources r')
               \<and> (strict_prefix (sources r) (sources r') \<longleftrightarrow>
                    (\<exists>i. length (snd (deep_research env q d l n)) \<le> i
                         \<and> i < length (snd (deep_research free q d' l' n))
                         \<and> \<not> fetch_fails env i (snd (deep_research free q d' l' n) ! i)))))"
proof (intro conjI impI)
  show "length (snd (deep_research env q d l n)) \<le> k"
    by (rule deep_research_requests_bound [OF assms])
next
  assume twin: "search_get free = search_get env \<and> content_get free = content_get env
        \<and> str_of_value free = str_of_value env
        \<and> (\<forall>j. \<not> float_sub free (clock free j) (clock free 0) > of_int l')"
  then show "prefix (snd (deep_research env q d l n)) (snd (deep_research free q d' l' n))"
    by (intro deep_research_requests_prefix) simp_all
  assume ok: "fst (deep_research env q d l n) = Success r
             \<and> fst (deep_research free q d' l' n) = Success r'"
  have both: "prefix (sources r) (sources r')
         \<and> (strict_prefix (sources r) (sources r') \<longleftrightarrow>
              (\<exists>i. length (snd (deep_research env q d l n)) \<le> i
                   \<and> i < length (snd (deep_research free q d' l' n))
                   \<and> \<not> fetch_fails env i (snd (deep_research free q d' l' n) ! i)))"
    using twin ok by (intro deep_research_sources_prefix) simp_all
  from both show "prefix (sources r) (sources r')" by simp
  from both show "strict_prefix (sources r) (sources r') \<longleftrightarrow>
              (\<exists>i. length (snd (deep_research env q d l n)) \<le> i
                   \<and> i < length (snd (deep_research free q d' l' n))
                   \<and> \<not> fetch_fails env i (snd (deep_research free q d' l' n) ! i))" by simp
qed

theorem deadline_run_is_prefix_of_free_run_witness:
  "float_sub cut_env (clock cut_env (Suc 1)) (clock cut_env 0) > of_int 30
   \<and> length (snd (deep_research cut_env (ascii ''Turing'') 2 30 2)) \<le> 1
   \<and> search_get turing_env = search_get cut_env \<and> content_get turing_env = content_get cut_env
   \<and> str_of_value turing_env = str_of_value cut_env
   \<and> \<not> float_sub turing_env (clock turing_env 7) (clock turing_env 0) > of_int 30
   \<and> fst (deep_research cut_env (ascii ''Turing'') 2 30 2) = Success alan_data
   \<and> fst (deep_research turing_env (ascii ''Turing'') 2 30 2) = Success turing_data
   \<and> prefix (snd (deep_research cut_env (ascii ''Turing'') 2 30 2))
            (snd (deep_research turing_env (ascii ''Turing'') 2 30 2))
   \<and> prefix (sources alan_data) (sources turing_data)
   \<and> strict_prefix (sources alan_data) (sources turing_data)
   \<and> \<not> fetch_fails cut_env 1 (snd (deep_research turing_env (ascii ''Turing'') 2 30 2) ! 1)"
proof -
  have a: "search_get turing_env = search_get cut_env" by (simp add: cut_env_def)
  have b: "content_get turing_env = content_get cut_env" by (simp add: cut_env_def)
  have c: "str_of_value turing_env = str_of_value cut_env" by (simp add: cut_env_def)
  have d: "\<forall>j. \<not> float_sub turing_env (clock turing_env j) (clock turing_env 0) > of_int 30"
    by (simp add: turing_env_def)
  have e: "float_sub cut_env (clock cut_env (Suc 1)) (clock cut_env 0) > of_int 30"
    by (simp add: cut_env_def late_clock_def turing_env_def)
  have f: "fst (deep_research cut_env (ascii ''Turing'') 2 30 2) = Success alan_data"
    by (simp add: cut_run)
  have g: "fst (deep_research turing_env (ascii ''Turing'') 2 30 2) = Success turing_data"
    by (simp add: turing_run_30)
  have h: "\<not> fetch_fails cut_env 1 (snd (deep_research turing_env (ascii ''Turing'') 2 30 2) ! 1)"
    by (simp add: turing_run_30 fetch_fails_def run_defs cut_env_def turing_env_def)
  have i: "\<exists>i. length (snd (deep_research cut_env (ascii ''Turing'') 2 30 2)) \<le> i
         \<and> i < length (snd (deep_research turing_env (ascii ''Turing'') 2 30 2))
         \<and> \<not> fetch_fails cut_env i (snd (deep_research turing_env (ascii ''Turing'') 2 30 2) ! i)"
    using h by (intro exI [of _ 1]) (simp add: cut_run turing_run_30)
  from deadline_run_is_prefix_of_free_run
    [OF e, where free = turing_env and q = "ascii ''Turing''" and d = 2 and n = 2 and d' = 2
       and l' = 30 and r = alan_data and r' = turing_data]
    a b c d e f g h i
  show ?thesis by simp
qed

text \<open>
  C2 as stated fails: when the deadline passes before the second of two candidates and the
  second content request would have failed anyway, both runs return the same single source,
  so the prefix is not strict.
\<close>

theorem deadline_prefix_not_strict:
  "float_sub half_cut_env (clock half_cut_env 2) (clock half_cut_env 0) > of_int 30
   \<and> fst (deep_research half_cut_env (ascii ''Turing'') 2 30 2) = Success alan_data
   \<and> fst (deep_research half_env (ascii ''Turing'') 2 30 2) = Success alan_data
   \<and> snd (deep_research half_cut_env (ascii ''Turing'') 2 30 2) = [PStr (ascii ''Alan Turing'')]
   \<and> snd (deep_research half_env (ascii ''Turing'') 2 30 2) =
       [PStr (ascii ''Alan Turing''), PStr (ascii ''Turing Award'')]
   \<and> \<not> strict_prefix (sources alan_data) (sources alan_data)"
  by (simp add: run_defs half_cut_env_def half_env_def late_clock_def turing_env_def
                alan_data_def turing_source_def)

text \<open>
  C3. When the search returns a non-empty list of JSON objects and every content fetch the
  run issues fails, the run returns the failure \<^verbatim>\<open>Could not retrieve any content\<close>, and it
  has issued at most \<open>N\<close> content requests (\<open>N\<close> not negative).
\<close>

theorem all_fetches_fail_gives_failure:
  assumes "0 \<le> n"
    and "search_get env q n = Inr sd"
    and "get_nested (ascii ''query'') (ascii ''search'') sd = Inr (PList rs)"
    and "rs \<noteq> []"
    and "\<forall>r \<in> set rs. is_dict r"
    and "\<forall>i < length (snd (deep_research env q d l n)).
           fetch_fails env i (snd (deep_research env q d l n) ! i)"
  shows "fst (deep_research env q d l n) = Failure (ascii ''Could not retrieve any content'')
         \<and> int (length (snd (deep_research env q d l n))) \<le> n"
proof -
  obtain ex st where loop: "research_loop env (clock env 0) l init_state (slice_to n rs) = (ex, st)"
    by (cases "research_loop env (clock env 0) l init_state (slice_to n rs)")
  note unfolded = deep_research_candidates [OF assms(2,3,4), of d l]
  have reqs: "snd (deep_research env q d l n) = content_requests st"
    by (simp add: unfolded loop split: option.splits)
  have dicts: "\<forall>r \<in> set (slice_to n rs). is_dict r"
    using assms(5) by (auto simp: slice_to_def dest: in_set_takeD)
  have "ex = None \<and> results_sources st = results_sources init_state
        \<and> content_summary st = content_summary init_state"
    using assms(6) by (intro loop_all_fail [OF loop dicts]) (simp add: reqs)
  then have "ex = None" and "content_summary st = []"
    by (simp_all add: init_state_def)
  then have out: "fst (deep_research env q d l n) = Failure (ascii ''Could not retrieve any content'')"
    by (simp add: unfolded loop)
  have "length (content_requests st) \<le> length (slice_to n rs)"
    using loop_requests_bound [OF loop] by (simp add: init_state_def)
  also have "\<dots> \<le> nat n"
    using assms(1) by (simp add: slice_to_def)
  finally have "int (length (content_requests st)) \<le> n"
    using assms(1) by linarith
  with out reqs show ?thesis by simp
qed

theorem all_fetches_fail_gives_failure_witness:
  "(0::int) \<le> 2
   \<and> search_get failing_env (ascii ''Turing'') 2 =
       Inr (search_body [title_result ''Alan Turing'', title_result ''Turing Award''])
   \<and> get_nested (ascii ''query'') (ascii ''search'')
        (search_body [title_result ''Alan Turing'', title_result ''Turing Award'']) =
       Inr (PList [title_result ''Alan Turing'', title_result ''Turing Award''])
   \<and> is_dict (title_result ''Alan Turing'') \<and> is_dict (title_result ''Turing Award'')
   \<and> fetch_fails failing_env 0 (PStr (ascii ''Alan Turing''))
   \<and> fetch_fails failing_env 1 (PStr (ascii ''Turing Award''))
   \<and> fst (deep_research failing_env (ascii ''Turing'') 2 120 2) =
       Failure (ascii ''Could not retrieve any content'')
   \<and> int (length (snd (deep_research failing_env (ascii ''Turing'') 2 120 2))) \<le> 2"
proof -
  have a: "(0::int) \<le> 2" by simp
  have b: "search_get failing_env (ascii ''Turing'') 2 =
       Inr (search_body [title_result ''Alan Turing'', title_result ''Turing Award''])"
    by (simp add: failing_env_def turing_env_def)
  have c: "get_nested (ascii ''query'') (ascii ''search'')
        (search_body [title_result ''Alan Turing'', title_result ''Turing Award'']) =
       Inr (PList [title_result ''Alan Turing'', title_result ''Turing Award''])"
    by (simp add: get_nested_def search_body_def ascii_def)
  have d: "[title_result ''Alan Turing'', title_result ''Turing Award''] \<noteq> []" by simp
  have e: "\<forall>r \<in> set [title_result ''Alan Turing'', title_result ''Turing Award'']. is_dict r"
    by (simp add: title_result_def)
  have ff: "fetch_fails failing_env i t" for i t
    by (simp add: fetch_fails_def fetch_content_def failing_env_def)
  have f: "\<forall>i < length (snd (deep_research failing_env (ascii ''Turing'') 2 120 2)).
           fetch_fails failing_env i (snd (deep_research failing_env (ascii ''Turing'') 2 120 2) ! i)"
    by (simp add: ff)
  from all_fetches_fail_gives_failure [OF a b c d e f] b c e ff show ?thesis by simp
qed

text \<open>
  C4. When the search returns an empty list of candidates, the run returns a failure
  (\<^verbatim>\<open>No results found for '<query>'\<close>) and issues no content request.
\<close>

theorem no_candidates_no_content_request:
  assumes "search_get env q n = Inr sd"
    and "get_nested (ascii ''query'') (ascii ''search'') sd = Inr (PList [])"
  shows "deep_research env q d l n =
           (Failure (ascii ''No results found for '' @ [39] @ q @ [39]), [])"
  using assms get_nested_has_nested [OF assms(2)]
  by (simp add: deep_research_def)

theorem no_candidates_no_content_request_witness:
  "search_get empty_env (ascii ''zzzzz_no_such_topic'') 5 = Inr (search_body [])
   \<and> get_nested (ascii ''query'') (ascii ''search'') (search_body []) = Inr (PList [])
   \<and> deep_research empty_env (ascii ''zzzzz_no_such_topic'') 2 120 5 =
       (Failure (ascii ''No results found for '' @ [39] @ ascii ''zzzzz_no_such_topic'' @ [39]), [])"
proof -
  have s: "search_get empty_env (ascii ''zzzzz_no_such_topic'') 5 = Inr (search_body [])"
    by (simp add: empty_env_def)
  have g: "get_nested (ascii ''query'') (ascii ''search'') (search_body []) = Inr (PList [])"
    by (simp add: get_nested_def search_body_def ascii_def)
  from no_candidates_no_content_request [OF s g] s g show ?thesis by simp
qed

text \<open>
  C5, as amended. When the pages of a content response hold several page ids, the source
  for the title is taken from the first page, in response order, that has an
  \<^verbatim>\<open>extract\<close> key, whether or not that extract is empty; the pages after it are not
  looked at. (Pages before it have no such key; the extract is a string or a list.)
\<close>

theorem first_page_with_extract_key:
  assumes "content_get env i (PStr t) = Inr data"
    and "get_nested (ascii ''query'') (ascii ''pages'') data = Inr (PDict (pre @ (pid, page) # post))"
    and "\<forall>pg \<in> snd ` set pre. py_contains (ascii ''extract'') pg = Inr False"
    and "py_getitem page (ascii ''extract'') = Inr ex"
    and "py_slice_to ex 1200 = Inr text"
  shows "fetch_content env i (PStr t) =
           Inr (Some \<lparr>title = PStr t,
                      url = ascii ''https://en.wikipedia.org/wiki/'' @ replace_space t,
                      snippet = text\<rparr>)"
  using assms(1,2,4,5) get_nested_has_nested [OF assms(2)] py_getitem_contains [OF assms(4)]
  by (simp add: fetch_content_def pages_loop_skip [OF assms(3)])

theorem first_page_with_extract_key_witness:
  "content_get (pages_env three_pages) 0 (PStr (ascii ''A B'')) = Inr (pages_body three_pages)
   \<and> get_nested (ascii ''query'') (ascii ''pages'') (pages_body three_pages) =
       Inr (PDict ([(ascii ''-1'', PDict [(ascii ''missing'', PStr [])])]
                   @ (ascii ''11'', extract_page ''First'') # [(ascii ''22'', extract_page ''Second'')]))
   \<and> py_contains (ascii ''extract'') (PDict [(ascii ''missing'', PStr [])]) = Inr False
   \<and> py_getitem (extract_page ''First'') (ascii ''extract'') = Inr (PStr (ascii ''First''))
   \<and> py_slice_to (PStr (ascii ''First'')) 1200 = Inr (PStr (ascii ''First''))
   \<and> fetch_content (pages_env three_pages) 0 (PStr (ascii ''A B'')) =
       Inr (Some \<lparr>title = PStr (ascii ''A B''),
                  url = ascii ''https://en.wikipedia.org/wiki/'' @ replace_space (ascii ''A B''),
                  snippet = PStr (ascii ''First'')\<rparr>)"
proof -
  have a: "content_get (pages_env three_pages) 0 (PStr (ascii ''A B'')) = Inr (pages_body three_pages)"
    by (simp add: pages_env_def)
  have b: "get_nested (ascii ''query'') (ascii ''pages'') (pages_body three_pages) =
       Inr (PDict ([(ascii ''-1'', PDict [(ascii ''missing'', PStr [])])]
                   @ (ascii ''11'', extract_page ''First'') # [(ascii ''22'', extract_page ''Second'')]))"
    by (simp add: get_nested_def pages_body_def three_pages_def ascii_def)
  have c: "\<forall>pg \<in> snd ` set [(ascii ''-1'', PDict [(ascii ''missing'', PStr [])])].
             py_contains (ascii ''extract'') pg = Inr False"
    by (simp add: ascii_def)
  have d: "py_getitem (extract_page ''First'') (ascii ''extract'') = Inr (PStr (ascii ''First''))"
    by (simp add: extract_page_def)
  have e: "py_slice_to (PStr (ascii ''First'')) 1200 = Inr (PStr (ascii ''First''))"
    by (simp add: slice_to_def ascii_def)
  from first_page_with_extract_key [OF a b c d e] a b c d e show ?thesis by simp
qed

text \<open>
  C5 as stated fails: with an empty extract under the first page id and text under the
  second, the program takes the empty extract of the first page, where the page scan as
  specified takes the text of the second.
\<close>

theorem empty_extract_is_taken:
  "fetch_content (pages_env two_pages) 0 (PStr (ascii ''T'')) =
     Inr (Some \<lparr>title = PStr (ascii ''T''), url = ascii ''https://en.wikipedia.org/wiki/T'',
                snippet = PStr []\<rparr>)
   \<and> pages_loop_as_specified (PStr (ascii ''T'')) two_pages =
     Inr (Some \<lparr>title = PStr (ascii ''T''), url = ascii ''https://en.wikipedia.org/wiki/T'',
                snippet = PStr (ascii ''Text'')\<rparr>)"
  by (simp add: run_defs pages_env_def turing_env_def two_pages_def)

text \<open>
  C6. In \<^verbatim>\<open>call_llm\<close>, with both keys set, the OpenRouter attempt failing and the Groq
  attempt succeeding, the call returns what the Groq attempt returned; OpenRouter is tried
  once, then a warning is shown, then Groq is tried.
\<close>

theorem fallback_returns_secondary:
  assumes "openrouter_api_key env \<noteq> []" and "groq_api_key env \<noteq> []"
    and "openrouter_try env messages temperature = Inl e"
    and "groq_try env messages temperature = Inr v"
  shows "call_llm env messages temperature =
           (Inr v, [Try_OpenRouter messages temperature,
                    Warning (ascii ''OpenRouter call failed: '' @ exn_message (str_of_exn env) e),
                    Try_Groq messages temperature])"
  using assms by (simp add: call_llm_def groq_fallback_def)

theorem fallback_returns_secondary_witness:
  "openrouter_api_key fallback_env \<noteq> [] \<and> groq_api_key fallback_env \<noteq> []
   \<and> openrouter_try fallback_env ping (7 / 10) = Inl (LibraryError (ascii ''503 Server Error''))
   \<and> groq_try fallback_env ping (7 / 10) = Inr (PStr (ascii ''Summary''))
   \<and> call_llm fallback_env ping (7 / 10) =
       (Inr (PStr (ascii ''Summary'')),
        [Try_OpenRouter ping (7 / 10),
         Warning (ascii ''OpenRouter call failed: ''
                  @ exn_message (str_of_exn fallback_env) (LibraryError (ascii ''503 Server Error''))),
         Try_Groq ping (7 / 10)])"
proof -
  have a: "openrouter_api_key fallback_env \<noteq> []" by (simp add: fallback_env_def ascii_def)
  have b: "groq_api_key fallback_env \<noteq> []" by (simp add: fallback_env_def ascii_def)
  have c: "openrouter_try fallback_env ping (7 / 10) = Inl (LibraryError (ascii ''503 Server Error''))"
    by (simp add: openrouter_try_def fallback_env_def)
  have d: "groq_try fallback_env ping (7 / 10) = Inr (PStr (ascii ''Summary''))"
    by (simp add: groq_try_def fallback_env_def)
  from fallback_returns_secondary [OF a b c d] a b c d show ?thesis by simp
qed

text \<open>
  C7. \<^verbatim>\<open>generate_summary\<close> is declared to return a string. When OpenRouter answers a
  completion whose \<^verbatim>\<open>content\<close> is \<^verbatim>\<open>null\<close>, it returns \<^verbatim>\<open>None\<close>.
\<close>

theorem generate_summary_returns_none:
  "fst (generate_summary null_content_env alan_data (ascii ''Turing'')) = Inr PNone"
  by (simp add: generate_summary_def call_llm_def openrouter_try_def null_content_env_def
                fallback_env_def alan_data_def turing_source_def slice_to_def ascii_def)

theorem generate_summary_returns_none_witness:
  "openrouter_api_key null_content_env \<noteq> []
   \<and> openrouter_post null_content_env
         (summary_messages (ascii ''Turing'')
            (ascii ''- Alan Turing: text'')) (7 / 10) =
       Inr (PDict [(ascii ''choices'',
              PList [PDict [(ascii ''message'', PDict [(ascii ''role'', PStr (ascii ''assistant'')),
                                                       (ascii ''content'', PNone)])]])])
   \<and> fst (generate_summary null_content_env alan_data (ascii ''Turing'')) = Inr PNone"
  using generate_summary_returns_none
  by (simp add: null_content_env_def fallback_env_def ascii_def)

text \<open>
  C8. Every source of a successful run has as snippet the first 1200 characters of the
  extract of a page in the content response for its title (the first 1200 elements when the
  extract is a list), and the length of the snippet is at most 1200.
\<close>

theorem snippet_is_extract_prefix:
  assumes "fst (deep_research env q d l n) = Success r" and "src \<in> set (sources r)"
  shows "\<exists>i data kvs pid page ex k.
           content_get env i (title src) = Inr data
         \<and> get_nested (ascii ''query'') (ascii ''pages'') data = Inr (PDict kvs)
         \<and> (pid, page) \<in> set kvs
         \<and> py_getitem page (ascii ''extract'') = Inr ex
         \<and> ((\<exists>e. ex = PStr e \<and> snippet src = PStr (take 1200 e))
            \<or> (\<exists>xs. ex = PList xs \<and> snippet src = PList (take 1200 xs)))
         \<and> py_slice_to ex 1200 = Inr (snippet src)
         \<and> py_len (snippet src) = Inr k \<and> k \<le> 1200"
proof -
  from deep_research_Success [OF assms(1)] obtain cands st where
    loop: "research_loop env (clock env 0) l init_state cands = (None, st)" and
    src: "sources r = results_sources st"
    by blast
  have mem: "src \<in> set (results_sources st)"
    using assms(2) src by simp
  from loop_sources_origin [OF loop mem] obtain i t where
    f: "fetch_content env i t = Inr (Some src)"
    by (auto simp: init_state_def)
  from fetch_content_Some [OF f] obtain data kvs where
    data: "content_get env i t = Inr data"
      "get_nested (ascii ''query'') (ascii ''pages'') data = Inr (PDict kvs)" and
    pl: "pages_loop t kvs = Inr (Some src)"
    by blast
  from pages_loop_Some [OF pl] obtain pid page ex where
    pg: "(pid, page) \<in> set kvs" "py_getitem page (ascii ''extract'') = Inr ex"
      "py_slice_to ex 1200 = Inr (snippet src)" "title src = t"
    by blast
  from py_slice_to_len [OF _ pg(3)] obtain k where k: "py_len (snippet src) = Inr k" "k \<le> 1200"
    by auto
  note tk = py_slice_to_take [OF pg(3)]
  from data pg k tk show ?thesis by blast
qed

theorem snippet_is_extract_prefix_witness:
  "fst (deep_research long_env (ascii ''A'') 2 120 1) = Success long_data
   \<and> long_source \<in> set (sources long_data)
   \<and> content_get long_env 0 (title long_source) =
       Inr (pages_body [(ascii ''1'', PDict [(ascii ''extract'', PStr long_text)])])
   \<and> length long_text = 1201
   \<and> snippet long_source = PStr (take 1200 long_text)
   \<and> length (take 1200 long_text) = 1200
   \<and> (\<exists>i data kvs pid page ex k.
           content_get long_env i (title long_source) = Inr data
         \<and> get_nested (ascii ''query'') (ascii ''pages'') data = Inr (PDict kvs)
         \<and> (pid, page) \<in> set kvs
         \<and> py_getitem page (ascii ''extract'') = Inr ex
         \<and> ((\<exists>e. ex = PStr e \<and> snippet long_source = PStr (take 1200 e))
            \<or> (\<exists>xs. ex = PList xs \<and> snippet long_source = PList (take 1200 xs)))
         \<and> py_slice_to ex 1200 = Inr (snippet long_source)
         \<and> py_len (snippet long_source) = Inr k \<and> k \<le> 1200)"
proof -
  have run: "fst (deep_research long_env (ascii ''A'') 2 120 1) = Success long_data"
    by (simp add: long_run)
  have mem: "long_source \<in> set (sources long_data)"
    by (simp add: long_data_def)
  have resp: "content_get long_env 0 (title long_source) =
       Inr (pages_body [(ascii ''1'', PDict [(ascii ''extract'', PStr long_text)])])"
    by (simp add: long_env_def)
  have len: "length long_text = 1201" "length (take 1200 long_text) = 1200"
    by (simp_all add: long_text_def)
  have snip: "snippet long_source = PStr (take 1200 long_text)"
    by (simp add: long_source_def)
  from snippet_is_extract_prefix [OF run mem] run mem resp len snip show ?thesis by simp
qed

text \<open>
  C9. Every source of a successful run carries the title of a candidate as the search
  returned it, a string, and its url is \<^verbatim>\<open>https://en.wikipedia.org/wiki/\<close> followed by
  that title with each space replaced by an underscore and nothing else changed.
\<close>

theorem url_is_title_with_underscores:
  assumes "fst (deep_research env q d l n) = Success r" and "src \<in> set (sources r)"
  shows "\<exists>sd sr sl cands result t.
           search_get env q n = Inr sd
         \<and> get_nested (ascii ''query'') (ascii ''search'') sd = Inr sr
         \<and> py_slice_to sr n = Inr sl \<and> py_iter sl = Inr cands
         \<and> result \<in> set cands
         \<and> py_get result (ascii ''title'') (PStr []) = Inr (PStr t)
         \<and> title src = PStr t
         \<and> url src = ascii ''https://en.wikipedia.org/wiki/''
                        @ map (\<lambda>c. if c = 32 then 95 else c) t"
proof -
  from deep_research_Success [OF assms(1)] obtain sd sr sl cands st where
    s: "search_get env q n = Inr sd"
      "get_nested (ascii ''query'') (ascii ''search'') sd = Inr sr"
      "py_slice_to sr n = Inr sl" "py_iter sl = Inr cands" and
    loop: "research_loop env (clock env 0) l init_state cands = (None, st)" and
    src: "sources r = results_sources st"
    by blast
  have mem: "src \<in> set (results_sources st)"
    using assms(2) src by simp
  from loop_sources_origin [OF loop mem] obtain result i tv where
    res: "result \<in> set cands" "py_get result (ascii ''title'') (PStr []) = Inr tv" and
    f: "fetch_content env i tv = Inr (Some src)"
    by (auto simp: init_state_def)
  from fetch_content_Some [OF f] obtain kvs where "pages_loop tv kvs = Inr (Some src)"
    by blast
  from pages_loop_Some [OF this] obtain t where
    "tv = PStr t" "title src = tv"
    "url src = ascii ''https://en.wikipedia.org/wiki/'' @ replace_space t"
    by blast
  with s res show ?thesis
    by (auto simp: replace_space_map)
qed

theorem url_is_title_with_underscores_witness:
  "fst (deep_research turing_env (ascii ''Turing'') 2 120 2) = Success turing_data
   \<and> turing_source ''Alan Turing'' ''Alan_Turing'' \<in> set (sources turing_data)
   \<and> title (turing_source ''Alan Turing'' ''Alan_Turing'') = PStr (ascii ''Alan Turing'')
   \<and> url (turing_source ''Alan Turing'' ''Alan_Turing'') =
       ascii ''https://en.wikipedia.org/wiki/''
       @ map (\<lambda>c. if c = 32 then 95 else c) (ascii ''Alan Turing'')"
proof -
  have run: "fst (deep_research turing_env (ascii ''Turing'') 2 120 2) = Success turing_data"
    by (simp add: turing_run)
  have mem: "turing_source ''Alan Turing'' ''Alan_Turing'' \<in> set (sources turing_data)"
    by (simp add: turing_data_def)
  from url_is_title_with_underscores [OF run mem] run mem show ?thesis
    by (auto simp: turing_source_def)
qed

text \<open>
  C10. Two runs that differ only in \<^verbatim>\<open>max_depth\<close> return the same outcome and issue the
  same content requests: the parameter is never read.
\<close>

theorem max_depth_never_read:
  "deep_research env q d1 l n = deep_research env q d2 l n"
  by (simp add: deep_research_def)

end
